theory Spec2Isabelle
  imports Complex_Main "HOL-Library.Multiset"
begin

section \<open>Values that cross the Python / SQLite boundary\<close>

text \<open>
  A Python \<open>str\<close> is a sequence of code points. The \<open>sqlite3\<close> driver binds a
  \<open>str\<close> parameter as UTF-8 text, which fails with \<open>UnicodeEncodeError\<close> when the
  string holds a lone surrogate (U+D800 .. U+DFFF). A Python \<open>int\<close> parameter is bound
  as a 64-bit SQLite INTEGER and fails with \<open>OverflowError\<close> outside that range.
  Both failures happen before the statement is stepped.
\<close>

type_synonym pystr = "nat list"

definition utf8_encodable :: "pystr \<Rightarrow> bool" where
  "utf8_encodable s = list_all (\<lambda>c. c < 55296 \<or> 57343 < c) s"

definition max_rowid :: int where
  "max_rowid = 9223372036854775807"

definition int64 :: "int \<Rightarrow> bool" where
  "int64 i = (- max_rowid - 1 \<le> i \<and> i \<le> max_rowid)"

text \<open>
  The exceptions that the statements of \<open>offline_ai_db.py\<close> can raise on values of
  the declared argument types. \<open>OperationalError\<close> is \<open>sqlite3.OperationalError\<close>;
  its two causes here are an FTS5 query that does not parse and an AUTOINCREMENT key
  space that is used up.
\<close>

text \<open>
  The kind of a bind failure given here is the one a handle reports while its last
  statement succeeded. Directly after a statement that failed inside SQLite the driver
  reports a bind failure as \<open>OperationalError\<close> with the message of that earlier
  failure; the tables are left alone either way. The model does not keep the handle's
  last error code, and the kind of a bind failure is stated below only for handles
  without an earlier failed statement.
\<close>

datatype sqlite_failure = Fts5SyntaxError | SqliteFull

datatype error = UnicodeEncodeError | OverflowError | OperationalError sqlite_failure

datatype pyval = PyInt int | PyStr pystr | PyFloat real | PyNone

text \<open>\<open>dict(row)\<close>: column names in SELECT order with their values.\<close>

type_synonym pydict = "(string \<times> pyval) list"

section \<open>Data model\<close>

text \<open>The frozen dataclass \<open>AIRecord\<close>.\<close>

record AIRecord =
  name :: pystr
  provider :: pystr
  description :: pystr
  capabilities :: pystr
  tags :: pystr

text \<open>A row of the table \<open>ai_records\<close>.\<close>

record stored_row =
  row_id :: int
  row_name :: pystr
  row_provider :: pystr
  row_description :: pystr
  row_capabilities :: pystr
  row_tags :: pystr
  row_created_at :: pystr

text \<open>
  The FTS5 virtual table \<open>ai_records_fts\<close> is an external-content index: per rowid it
  keeps the tokens of the five indexed columns, not the text. The tokenizer, the query
  parser, the match predicate and the \<open>bm25\<close> ranking function belong to SQLite, not
  to this repository; they are parameters of the model.
\<close>

type_synonym fts_doc = "pystr list list"

type_synonym fts_index = "(int \<times> fts_doc) list"

record 'q fts5 =
  tokenize :: "pystr \<Rightarrow> pystr list"
  parse_query :: "pystr \<Rightarrow> 'q option"
  matches :: "'q \<Rightarrow> fts_doc \<Rightarrow> bool"
  bm25 :: "'q \<Rightarrow> fts_index \<Rightarrow> int \<Rightarrow> real"

text \<open>
  The database file: the table, the index and the AUTOINCREMENT counter that SQLite
  keeps for \<open>ai_records\<close> in \<open>sqlite_sequence\<close> (0 while the table has never had a row).
\<close>

record tables =
  ai_records :: "stored_row list"
  ai_records_fts :: fts_index
  sqlite_sequence :: int

text \<open>
  The connection \<open>self._connection\<close>: \<open>current\<close> is what statements on this
  connection read and write (it includes the changes of an open transaction),
  \<open>committed\<close> is the state as of the last \<open>commit()\<close>.
\<close>

record connection =
  current :: tables
  committed :: tables

definition commit :: "connection \<Rightarrow> connection" where
  "commit c = c\<lparr>committed := current c\<rparr>"

text \<open>A database file on which \<open>_initialize_schema\<close> has just created the schema.\<close>

definition empty_tables :: tables where
  "empty_tables = \<lparr>ai_records = [], ai_records_fts = [], sqlite_sequence = 0\<rparr>"

definition new_db :: connection where
  "new_db = \<lparr>current = empty_tables, committed = empty_tables\<rparr>"

text \<open>
  \<open>close\<close> releases the handle; SQLite rolls an open transaction back, so the file
  keeps the committed state. \<open>__init__\<close> on a file that has the schema creates nothing
  (\<open>IF NOT EXISTS\<close>) and reads what the file holds.
\<close>

definition close :: "connection \<Rightarrow> tables" where
  "close c = committed c"

definition init_db :: "tables \<Rightarrow> connection" where
  "init_db file = \<lparr>current = file, committed = file\<rparr>"

section \<open>Schema: key allocation and the synchronisation triggers\<close>

text \<open>
  \<open>id INTEGER PRIMARY KEY AUTOINCREMENT\<close>: the new key is one more than the largest
  key the table has ever held; once the largest 64-bit key has been used the INSERT
  fails with SQLITE_FULL instead of wrapping around.
\<close>

definition new_rowid :: "tables \<Rightarrow> int" where
  "new_rowid t = max (sqlite_sequence t) (fold max (map row_id (ai_records t)) 0) + 1"

definition indexed_columns :: "stored_row \<Rightarrow> pystr list" where
  "indexed_columns r =
     [row_name r, row_provider r, row_description r, row_capabilities r, row_tags r]"

text \<open>
  \<open>INSERT INTO ai_records_fts(rowid, ...) VALUES (...)\<close> adds the tokens of the given
  values under the rowid;
  \<open>INSERT INTO ai_records_fts(ai_records_fts, rowid, ...) VALUES ('delete', ...)\<close> takes
  away the entry of that rowid made of the tokens of the given values (an external-content
  index has no text of its own to look them up).
\<close>

definition fts_insert :: "'q fts5 \<Rightarrow> fts_index \<Rightarrow> int \<Rightarrow> pystr list \<Rightarrow> fts_index" where
  "fts_insert E idx rid vals = idx @ [(rid, map (tokenize E) vals)]"

definition fts_delete :: "'q fts5 \<Rightarrow> fts_index \<Rightarrow> int \<Rightarrow> pystr list \<Rightarrow> fts_index" where
  "fts_delete E idx rid vals = remove1 (rid, map (tokenize E) vals) idx"

text \<open>Trigger \<open>ai_records_ai\<close>, AFTER INSERT, with \<open>new\<close> the inserted row.\<close>

definition ai_records_ai :: "'q fts5 \<Rightarrow> stored_row \<Rightarrow> tables \<Rightarrow> tables" where
  "ai_records_ai E new t =
     t\<lparr>ai_records_fts := fts_insert E (ai_records_fts t) (row_id new) (indexed_columns new)\<rparr>"

text \<open>Trigger \<open>ai_records_ad\<close>, AFTER DELETE, with \<open>old\<close> the deleted row.\<close>

definition ai_records_ad :: "'q fts5 \<Rightarrow> stored_row \<Rightarrow> tables \<Rightarrow> tables" where
  "ai_records_ad E old t =
     t\<lparr>ai_records_fts := fts_delete E (ai_records_fts t) (row_id old) (indexed_columns old)\<rparr>"

text \<open>
  Trigger \<open>ai_records_au\<close>, AFTER UPDATE: the two statements above in sequence. No
  operation of the class issues an UPDATE.
\<close>

definition ai_records_au :: "'q fts5 \<Rightarrow> stored_row \<Rightarrow> stored_row \<Rightarrow> tables \<Rightarrow> tables" where
  "ai_records_au E old new t = ai_records_ai E new (ai_records_ad E old t)"

section \<open>The statements\<close>

text \<open>The parameter tuple \<open>(record.name, record.provider, ...)\<close>.\<close>

definition payload :: "AIRecord \<Rightarrow> pystr list" where
  "payload r = [name r, provider r, description r, capabilities r, tags r]"

text \<open>
  One execution of
  \<open>INSERT INTO ai_records(name, provider, description, capabilities, tags) VALUES (?, ?, ?, ?, ?)\<close>
  at a moment when CURRENT_TIMESTAMP reads \<open>now\<close>. A statement that fails changes
  nothing; one that succeeds returns the new tables and the rowid.
\<close>

definition exec_insert :: "'q fts5 \<Rightarrow> tables \<Rightarrow> pystr \<Rightarrow> AIRecord \<Rightarrow> error + (tables \<times> int)" where
  "exec_insert E t now r =
     (if \<not> list_all utf8_encodable (payload r) then Inl UnicodeEncodeError
      else if max_rowid < new_rowid t then Inl (OperationalError SqliteFull)
      else
        let rid = new_rowid t;
            new = \<lparr>row_id = rid, row_name = name r, row_provider = provider r,
                   row_description = description r, row_capabilities = capabilities r,
                   row_tags = tags r, row_created_at = now\<rparr>;
            t1 = t\<lparr>ai_records := ai_records t @ [new], sqlite_sequence := rid\<rparr>
        in Inr (ai_records_ai E new t1, rid))"

text \<open>
  \<open>cursor.executemany\<close>: the statement is run once per parameter tuple, in order, and
  the first failure stops the loop with the earlier rows already written into the open
  transaction. \<open>clock k\<close> is the reading of CURRENT_TIMESTAMP for the \<open>k\<close>-th tuple;
  \<open>n\<close> accumulates \<open>cursor.rowcount\<close>.
\<close>

fun executemany ::
  "'q fts5 \<Rightarrow> tables \<Rightarrow> (nat \<Rightarrow> pystr) \<Rightarrow> nat \<Rightarrow> AIRecord list \<Rightarrow> int \<Rightarrow> tables \<times> (error + int)" where
  "executemany E t clock k [] n = (t, Inr n)"
| "executemany E t clock k (r # rs) n =
     (case exec_insert E t (clock k) r of
        Inl e \<Rightarrow> (t, Inl e)
      | Inr (t', rid) \<Rightarrow> executemany E t' clock (Suc k) rs (n + 1))"

text \<open>\<open>DELETE FROM ai_records WHERE id = ?\<close>; the second component is the number of
  rows deleted.\<close>

definition exec_delete :: "'q fts5 \<Rightarrow> tables \<Rightarrow> int \<Rightarrow> tables \<times> int" where
  "exec_delete E t record_id =
     (let gone = filter (\<lambda>r. row_id r = record_id) (ai_records t);
          t1 = t\<lparr>ai_records := filter (\<lambda>r. row_id r \<noteq> record_id) (ai_records t)\<rparr>
      in (fold (ai_records_ad E) gone t1, int (length gone)))"

text \<open>\<open>LIMIT ?\<close>: a negative value means no limit.\<close>

definition sql_limit :: "int \<Rightarrow> 'a list \<Rightarrow> 'a list" where
  "sql_limit n xs = (if n < 0 then xs else take (nat n) xs)"

section \<open>The operations of \<open>MultiAIDatabase\<close>\<close>

definition add_ai :: "'q fts5 \<Rightarrow> connection \<Rightarrow> pystr \<Rightarrow> AIRecord \<Rightarrow> connection \<times> (error + int)" where
  "add_ai E c now record =
     (case exec_insert E (current c) now record of
        Inl e \<Rightarrow> (c, Inl e)
      | Inr (t, lastrowid) \<Rightarrow> (commit (c\<lparr>current := t\<rparr>), Inr lastrowid))"

text \<open>
  When \<open>executemany\<close> raises, the exception leaves \<open>bulk_add\<close> before
  \<open>self._connection.commit()\<close>, and nothing rolls the transaction back.
\<close>

definition bulk_add ::
  "'q fts5 \<Rightarrow> connection \<Rightarrow> (nat \<Rightarrow> pystr) \<Rightarrow> AIRecord list \<Rightarrow> connection \<times> (error + int)" where
  "bulk_add E c clock records =
     (case executemany E (current c) clock 0 records 0 of
        (t, Inl e) \<Rightarrow> (c\<lparr>current := t\<rparr>, Inl e)
      | (t, Inr rowcount) \<Rightarrow> (commit (c\<lparr>current := t\<rparr>), Inr rowcount))"

text \<open>The row of the SELECT in \<open>search\<close> as a dict.\<close>

definition search_row :: "stored_row \<Rightarrow> real \<Rightarrow> pydict" where
  "search_row r score =
     [(''id'', PyInt (row_id r)), (''name'', PyStr (row_name r)),
      (''provider'', PyStr (row_provider r)), (''description'', PyStr (row_description r)),
      (''capabilities'', PyStr (row_capabilities r)), (''tags'', PyStr (row_tags r)),
      (''score'', PyFloat score)]"

text \<open>
  The rows of \<open>ai_records_fts f JOIN ai_records r ON r.id = f.rowid WHERE ai_records_fts MATCH ?\<close>,
  each with its \<open>bm25\<close> score. SQLite leaves the order of rows of equal score open; here
  they keep the order of the index.
\<close>

definition match_rows :: "'q fts5 \<Rightarrow> tables \<Rightarrow> 'q \<Rightarrow> (stored_row \<times> real) list" where
  "match_rows E t q =
     [(r, bm25 E q (ai_records_fts t) (fst f)).
        f \<leftarrow> filter (\<lambda>f. matches E q (snd f)) (ai_records_fts t),
        r \<leftarrow> ai_records t, row_id r = fst f]"

definition search ::
  "'q fts5 \<Rightarrow> connection \<Rightarrow> pystr \<Rightarrow> int \<Rightarrow> connection \<times> (error + pydict list)" where
  "search E c query limit =
     (if \<not> utf8_encodable query then (c, Inl UnicodeEncodeError)
      else if \<not> int64 limit then (c, Inl OverflowError)
      else case parse_query E query of
             None \<Rightarrow> (c, Inl (OperationalError Fts5SyntaxError))
           | Some q \<Rightarrow>
               (c, Inr (map (\<lambda>(r, s). search_row r s)
                          (sql_limit limit (sort_key snd (match_rows E (current c) q))))))"

text \<open>\<open>def search(self, query, limit=20)\<close> called without a limit.\<close>

definition search_default :: "'q fts5 \<Rightarrow> connection \<Rightarrow> pystr \<Rightarrow> connection \<times> (error + pydict list)" where
  "search_default E c query = search E c query 20"

text \<open>The row of the SELECT in \<open>list_all\<close> as a dict.\<close>

definition list_row :: "stored_row \<Rightarrow> pydict" where
  "list_row r =
     [(''id'', PyInt (row_id r)), (''name'', PyStr (row_name r)),
      (''provider'', PyStr (row_provider r)), (''description'', PyStr (row_description r)),
      (''capabilities'', PyStr (row_capabilities r)), (''tags'', PyStr (row_tags r)),
      (''created_at'', PyStr (row_created_at r))]"

text \<open>
  The methods \<open>list_all\<close> and \<open>remove\<close>; the names carry a suffix because HOL has
  constants \<open>list_all\<close> and \<open>remove\<close> of its own.
\<close>

definition list_all_db :: "connection \<Rightarrow> pydict list" where
  "list_all_db c = map list_row (sort_key row_id (ai_records (current c)))"

definition remove_db :: "'q fts5 \<Rightarrow> connection \<Rightarrow> int \<Rightarrow> connection \<times> (error + bool)" where
  "remove_db E c record_id =
     (if \<not> int64 record_id then (c, Inl OverflowError)
      else case exec_delete E (current c) record_id of
             (t, rowcount) \<Rightarrow> (commit (c\<lparr>current := t\<rparr>), Inr (rowcount > 0)))"

section \<open>Sequences of calls\<close>

text \<open>
  A caller holds one \<open>MultiAIDatabase\<close> and calls its methods one after another. An
  exception raised by a call is seen by the caller and does not close the connection.
  \<open>Reopen\<close> is \<open>close()\<close> followed by a new \<open>MultiAIDatabase\<close> on the same file, as
  between two runs of the command line; a method called on a closed handle raises
  \<open>sqlite3.ProgrammingError\<close> and touches nothing, so it has no call of its own.
\<close>

datatype call =
    AddAi pystr AIRecord
  | BulkAdd "nat \<Rightarrow> pystr" "AIRecord list"
  | Remove int
  | Search pystr int
  | ListAll
  | Reopen

fun step :: "'q fts5 \<Rightarrow> connection \<Rightarrow> call \<Rightarrow> connection" where
  "step E c (AddAi now r) = fst (add_ai E c now r)"
| "step E c (BulkAdd clock rs) = fst (bulk_add E c clock rs)"
| "step E c (Remove i) = fst (remove_db E c i)"
| "step E c (Search query limit) = fst (search E c query limit)"
| "step E c ListAll = c"
| "step E c Reopen = init_db (close c)"

definition run :: "'q fts5 \<Rightarrow> connection \<Rightarrow> call list \<Rightarrow> connection" where
  "run E c calls = foldl (step E) c calls"

text \<open>The identifiers returned by the \<open>add_ai\<close> calls of a sequence, in order.\<close>

fun returned_ids :: "'q fts5 \<Rightarrow> connection \<Rightarrow> call list \<Rightarrow> int list" where
  "returned_ids E c [] = []"
| "returned_ids E c (AddAi now r # calls) =
     (case snd (add_ai E c now r) of Inr i \<Rightarrow> [i] | Inl e \<Rightarrow> []) @
     returned_ids E (step E c (AddAi now r)) calls"
| "returned_ids E c (call # calls) = returned_ids E (step E c call) calls"

section \<open>Consistency of the index with the table\<close>

text \<open>The index entry that trigger \<open>ai_records_ai\<close> writes for a row.\<close>

definition index_entry :: "'q fts5 \<Rightarrow> stored_row \<Rightarrow> int \<times> fts_doc" where
  "index_entry E r = (row_id r, map (tokenize E) (indexed_columns r))"

text \<open>
  The invariant of the database file: keys are unique, positive and not above the
  AUTOINCREMENT counter, and the index holds exactly the entries of the rows, in the
  order of the rows.
\<close>

definition tables_inv :: "'q fts5 \<Rightarrow> tables \<Rightarrow> bool" where
  "tables_inv E t =
     (distinct (map row_id (ai_records t)) \<and>
      list_all (\<lambda>r. 0 < row_id r \<and> row_id r \<le> sqlite_sequence t) (ai_records t) \<and>
      ai_records_fts t = map (index_entry E) (ai_records t))"

definition conn_inv :: "'q fts5 \<Rightarrow> connection \<Rightarrow> bool" where
  "conn_inv E c = (tables_inv E (current c) \<and> tables_inv E (committed c))"

text \<open>
  The consistency that a reader of the two tables can observe: the index has one entry
  per key, its keys are the keys of the live rows, and every entry holds the tokens of
  the current column values of the row with its key.
\<close>

definition index_consistent :: "'q fts5 \<Rightarrow> tables \<Rightarrow> bool" where
  "index_consistent E t =
     (distinct (map fst (ai_records_fts t)) \<and>
      set (map fst (ai_records_fts t)) = set (map row_id (ai_records t)) \<and>
      list_all (\<lambda>e. list_all (\<lambda>r. row_id r = fst e \<longrightarrow>
                                   snd e = map (tokenize E) (indexed_columns r))
                              (ai_records t))
               (ai_records_fts t))"

section \<open>A small full-text engine for evaluating the model\<close>

text \<open>
  An instance of the engine interface, far simpler than FTS5: tokens are the maximal
  runs of characters other than space and comma, a query is one term or several terms
  joined by the keyword \<open>OR\<close> (anything else does not parse), a document matches when it
  holds one of the terms, and the score is minus the number of its tokens that are query
  terms, so that a lower score is a better match.
\<close>

fun split_words :: "pystr \<Rightarrow> pystr \<Rightarrow> pystr list" where
  "split_words [] w = (if w = [] then [] else [w])"
| "split_words (c # cs) w =
     (if c = 32 \<or> c = 44
      then (if w = [] then split_words cs [] else w # split_words cs [])
      else split_words cs (w @ [c]))"

fun or_terms :: "pystr list \<Rightarrow> pystr list option" where
  "or_terms [] = None"
| "or_terms [t] = (if t = [79, 82] then None else Some [t])"
| "or_terms (t # k # ts) =
     (if t \<noteq> [79, 82] \<and> k = [79, 82] then map_option (Cons t) (or_terms ts) else None)"

definition toy_fts5 :: "pystr list fts5" where
  "toy_fts5 =
     \<lparr>tokenize = (\<lambda>s. split_words s []),
      parse_query = (\<lambda>s. or_terms (split_words s [])),
      matches = (\<lambda>q doc. list_ex (\<lambda>t. t \<in> set (concat doc)) q),
      bm25 = (\<lambda>q idx rid.
                - real (length (filter (\<lambda>t. t \<in> set q)
                                       (concat (case map_of idx rid of None \<Rightarrow> [] | Some d \<Rightarrow> d)))))\<rparr>"

text \<open>Sample data: the records of the test suite, shortened.\<close>

definition vision_bot :: AIRecord where
  "vision_bot = \<lparr>name = [86], provider = [76], description = [105, 109, 103],
                  capabilities = [118, 44, 111], tags = [111, 102, 102]\<rparr>"

definition math_ai :: AIRecord where
  "math_ai = \<lparr>name = [77], provider = [69], description = [109],
               capabilities = [114, 44, 97], tags = [111, 102, 102]\<rparr>"

definition code_ai :: AIRecord where
  "code_ai = \<lparr>name = [67], provider = [69], description = [99],
               capabilities = [99, 44, 100], tags = [111, 102, 102]\<rparr>"

text \<open>A record whose name is the lone surrogate U+D800.\<close>

definition surrogate_ai :: AIRecord where
  "surrogate_ai = \<lparr>name = [55296], provider = [69], description = [115],
                    capabilities = [115], tags = [111, 102, 102]\<rparr>"

definition noon :: pystr where
  "noon = [49, 50, 58, 48, 48]"

definition sample_calls :: "call list" where
  "sample_calls = [AddAi noon vision_bot, BulkAdd (\<lambda>k. noon) [math_ai, code_ai]]"

definition listing_calls :: "call list" where
  "listing_calls =
     [AddAi noon vision_bot, BulkAdd (\<lambda>k. noon) [math_ai, code_ai], Remove 2, Reopen,
      AddAi noon math_ai]"

text \<open>A table whose rows are not stored in the order of their keys.\<close>

definition shuffled_db :: connection where
  "shuffled_db = init_db
     \<lparr>ai_records =
        [\<lparr>row_id = 3, row_name = [67], row_provider = [69], row_description = [99],
          row_capabilities = [100], row_tags = [111], row_created_at = noon\<rparr>,
         \<lparr>row_id = 1, row_name = [86], row_provider = [76], row_description = [105],
          row_capabilities = [118], row_tags = [111], row_created_at = noon\<rparr>],
      ai_records_fts = [], sqlite_sequence = 3\<rparr>"

text \<open>The handle after a \<open>bulk_add\<close> whose second record cannot be bound.\<close>

definition failed_batch :: connection where
  "failed_batch = fst (bulk_add toy_fts5 new_db (\<lambda>k. noon) [math_ai, surrogate_ai])"

section \<open>Evaluation\<close>

lemmas model_defs =
  run_def add_ai_def bulk_add_def remove_db_def search_def search_default_def exec_insert_def
  exec_delete_def new_rowid_def commit_def new_db_def empty_tables_def ai_records_ai_def
  ai_records_ad_def fts_insert_def fts_delete_def payload_def indexed_columns_def
  utf8_encodable_def int64_def max_rowid_def sql_limit_def match_rows_def toy_fts5_def
  vision_bot_def math_ai_def code_ai_def surrogate_ai_def noon_def Let_def search_row_def
  list_row_def list_all_db_def close_def init_db_def

section \<open>Key allocation and the invariant of the tables\<close>

lemma fold_max_le: "fold max xs (a::int) \<le> b \<longleftrightarrow> a \<le> b \<and> (\<forall>x\<in>set xs. x \<le> b)"
  by (induction xs arbitrary: a) auto

lemma fold_max_ge: "(a::int) \<le> fold max xs a"
  using fold_max_le[of xs a "fold max xs a"] by simp

lemma new_rowid_gt_seq: "sqlite_sequence t < new_rowid t"
  by (simp add: new_rowid_def)

lemma new_rowid_gt_rows: "r \<in> set (ai_records t) \<Longrightarrow> row_id r < new_rowid t"
proof -
  assume "r \<in> set (ai_records t)"
  then have "row_id r \<le> fold max (map row_id (ai_records t)) 0"
    using fold_max_le[of "map row_id (ai_records t)" 0 "fold max (map row_id (ai_records t)) 0"] by auto
  then show ?thesis by (simp add: new_rowid_def)
qed

lemma new_rowid_pos: "0 < new_rowid t"
  using fold_max_ge[of 0 "map row_id (ai_records t)"] by (simp add: new_rowid_def)

lemma exec_insert_Inr:
  assumes "exec_insert E t now r = Inr (t', rid)"
  shows "rid = new_rowid t" and "list_all utf8_encodable (payload r)" and "rid \<le> max_rowid"
    and "sqlite_sequence t' = rid"
    and "ai_records t' = ai_records t @
           [\<lparr>row_id = rid, row_name = name r, row_provider = provider r,
             row_description = description r, row_capabilities = capabilities r,
             row_tags = tags r, row_created_at = now\<rparr>]"
    and "ai_records_fts t' = ai_records_fts t @
           [index_entry E \<lparr>row_id = rid, row_name = name r, row_provider = provider r,
             row_description = description r, row_capabilities = capabilities r,
             row_tags = tags r, row_created_at = now\<rparr>]"
  using assms
  by (auto simp: exec_insert_def Let_def ai_records_ai_def fts_insert_def index_entry_def
      split: if_splits)

lemma exec_insert_inv:
  assumes inv: "tables_inv E t" and ex: "exec_insert E t now r = Inr (t', rid)"
  shows "tables_inv E t'"
proof -
  note facts = exec_insert_Inr[OF ex]
  have fresh: "\<forall>x\<in>set (ai_records t). row_id x < rid"
    using new_rowid_gt_rows[of _ t] facts(1) by simp
  have "distinct (map row_id (ai_records t'))"
    using inv fresh by (auto simp: facts(5) tables_inv_def)
  moreover have "list_all (\<lambda>x. 0 < row_id x \<and> row_id x \<le> sqlite_sequence t') (ai_records t')"
    using inv fresh new_rowid_pos[of t] facts(1)
    by (auto simp: facts(4,5) tables_inv_def list_all_iff)
  moreover have "ai_records_fts t' = map (index_entry E) (ai_records t')"
    using inv by (simp add: facts(5,6) tables_inv_def)
  ultimately show ?thesis by (simp add: tables_inv_def)
qed

lemma executemany_inv:
  "tables_inv E t \<Longrightarrow> executemany E t clock k rs n = (t', res) \<Longrightarrow> tables_inv E t'"
proof (induction rs arbitrary: t k n)
  case Nil
  then show ?case by simp
next
  case (Cons r rs)
  then show ?case
    by (auto split: sum.splits dest: exec_insert_inv)
qed


lemma fold_ad_fts:
  "ai_records_fts (fold (ai_records_ad E) gone t) =
     fold (\<lambda>old idx. remove1 (index_entry E old) idx) gone (ai_records_fts t)"
  by (induction gone arbitrary: t) (simp_all add: ai_records_ad_def fts_delete_def index_entry_def)

lemma fold_ad_rows: "ai_records (fold (ai_records_ad E) gone t) = ai_records t"
  by (induction gone arbitrary: t) (simp_all add: ai_records_ad_def)

lemma fold_ad_seq: "sqlite_sequence (fold (ai_records_ad E) gone t) = sqlite_sequence t"
  by (induction gone arbitrary: t) (simp_all add: ai_records_ad_def)

lemma fold_remove1_other:
  "\<forall>g\<in>set gone. row_id g \<noteq> fst x \<Longrightarrow>
   fold (\<lambda>old idx. remove1 (index_entry E old) idx) gone (x # idx) =
     x # fold (\<lambda>old idx. remove1 (index_entry E old) idx) gone idx"
  by (induction gone arbitrary: idx) (auto simp: index_entry_def)

lemma filter_id_distinct:
  "distinct (map row_id rows) \<Longrightarrow>
   fold (\<lambda>old idx. remove1 (index_entry E old) idx) (filter (\<lambda>r. row_id r = i) rows)
        (map (index_entry E) rows) =
     map (index_entry E) (filter (\<lambda>r. row_id r \<noteq> i) rows)"
proof (induction rows)
  case Nil
  then show ?case by simp
next
  case (Cons r rows)
  show ?case
  proof (cases "row_id r = i")
    case True
    with Cons.prems have "i \<notin> set (map row_id rows)" by simp
    then have none: "\<forall>x\<in>set rows. row_id x \<noteq> i" by auto
    then have "filter (\<lambda>r. row_id r = i) rows = []" "filter (\<lambda>r. row_id r \<noteq> i) rows = rows"
      by (simp_all add: filter_empty_conv filter_id_conv)
    with True show ?thesis by simp
  next
    case False
    have "\<forall>g\<in>set (filter (\<lambda>r. row_id r = i) rows). row_id g \<noteq> fst (index_entry E r)"
      using False by (auto simp: index_entry_def)
    from fold_remove1_other[where E = E, OF this] False Cons show ?thesis by simp
  qed
qed

lemma exec_delete_rows:
  "exec_delete E t i = (t', n) \<Longrightarrow> ai_records t' = filter (\<lambda>r. row_id r \<noteq> i) (ai_records t)"
  by (auto simp: exec_delete_def Let_def fold_ad_rows)

lemma exec_delete_seq:
  "exec_delete E t i = (t', n) \<Longrightarrow> sqlite_sequence t' = sqlite_sequence t"
  by (auto simp: exec_delete_def Let_def fold_ad_seq)

lemma exec_delete_count:
  "exec_delete E t i = (t', n) \<Longrightarrow> n = int (length (filter (\<lambda>r. row_id r = i) (ai_records t)))"
  by (auto simp: exec_delete_def Let_def)

lemma exec_delete_inv:
  assumes inv: "tables_inv E t" and ex: "exec_delete E t i = (t', n)"
  shows "tables_inv E t'"
proof -
  have "ai_records_fts t' = map (index_entry E) (ai_records t')"
    using ex inv filter_id_distinct[of "ai_records t" E i]
    by (auto simp: exec_delete_def Let_def fold_ad_rows fold_ad_fts tables_inv_def)
  moreover have "distinct (map row_id (ai_records t'))"
    using inv by (simp add: exec_delete_rows[OF ex] tables_inv_def distinct_map_filter)
  moreover have "list_all (\<lambda>x. 0 < row_id x \<and> row_id x \<le> sqlite_sequence t') (ai_records t')"
    using inv by (auto simp: exec_delete_rows[OF ex] exec_delete_seq[OF ex] tables_inv_def list_all_iff)
  ultimately show ?thesis by (simp add: tables_inv_def)
qed


lemma tables_inv_consistent:
  assumes "tables_inv E t"
  shows "index_consistent E t"
proof -
  have fts: "ai_records_fts t = map (index_entry E) (ai_records t)"
    and d: "distinct (map row_id (ai_records t))"
    using assms by (simp_all add: tables_inv_def)
  have keys: "map fst (ai_records_fts t) = map row_id (ai_records t)"
    by (simp add: fts index_entry_def comp_def)
  have "\<forall>e\<in>set (ai_records_fts t). \<forall>r\<in>set (ai_records t).
          row_id r = fst e \<longrightarrow> snd e = map (tokenize E) (indexed_columns r)"
  proof (intro ballI impI)
    fix e r
    assume e: "e \<in> set (ai_records_fts t)" and r: "r \<in> set (ai_records t)"
      and eq: "row_id r = fst e"
    from e obtain r' where r': "r' \<in> set (ai_records t)" and e': "e = index_entry E r'"
      by (auto simp: fts)
    from eq e' have "row_id r = row_id r'" by (simp add: index_entry_def)
    with d r r' have "r = r'" by (meson distinct_map inj_onD)
    with e' show "snd e = map (tokenize E) (indexed_columns r)" by (simp add: index_entry_def)
  qed
  with d keys show ?thesis by (simp add: index_consistent_def list_all_iff)
qed

lemma new_db_inv: "conn_inv E new_db"
  by (simp add: conn_inv_def new_db_def empty_tables_def tables_inv_def)

lemma add_ai_inv: "conn_inv E c \<Longrightarrow> conn_inv E (fst (add_ai E c now r))"
  by (auto simp: add_ai_def conn_inv_def commit_def split: sum.splits dest: exec_insert_inv)

lemma bulk_add_inv: "conn_inv E c \<Longrightarrow> conn_inv E (fst (bulk_add E c clock rs))"
  by (auto simp: bulk_add_def conn_inv_def commit_def split: sum.splits prod.splits
      dest: executemany_inv)

lemma remove_db_inv: "conn_inv E c \<Longrightarrow> conn_inv E (fst (remove_db E c i))"
  by (auto simp: remove_db_def conn_inv_def commit_def split: prod.splits dest: exec_delete_inv)

lemma search_state: "fst (search E c query limit) = c"
  by (simp add: search_def split: option.splits)

lemma reopen_inv: "conn_inv E c \<Longrightarrow> conn_inv E (init_db (close c))"
  by (simp add: conn_inv_def init_db_def close_def)

lemma step_inv: "conn_inv E c \<Longrightarrow> conn_inv E (step E c call)"
  by (cases call) (simp_all add: add_ai_inv bulk_add_inv remove_db_inv search_state reopen_inv)

lemma run_inv: "conn_inv E c \<Longrightarrow> conn_inv E (run E c calls)"
  unfolding run_def by (induction calls arbitrary: c) (simp_all add: step_inv)

lemma match_rows_empty:
  "\<forall>e\<in>set (ai_records_fts t). \<not> matches E q (snd e) \<Longrightarrow> match_rows E t q = []"
  by (simp add: match_rows_def filter_empty_conv)

lemma remove_db_fts_keys:
  assumes "conn_inv E c" "int64 i"
  shows "i \<notin> fst ` set (ai_records_fts (current (fst (remove_db E c i))))"
proof -
  obtain t n where ex: "exec_delete E (current c) i = (t, n)" by force
  have inv: "tables_inv E t" using assms(1) ex by (auto simp: conn_inv_def dest: exec_delete_inv)
  have cur: "current (fst (remove_db E c i)) = t"
    using assms(2) ex by (simp add: remove_db_def commit_def)
  have "fst ` set (ai_records_fts t) = row_id ` set (ai_records t)"
    using inv by (force simp: tables_inv_def index_entry_def)
  then show ?thesis by (auto simp: cur exec_delete_rows[OF ex])
qed

lemma remove_db_fts_subset:
  assumes "conn_inv E c"
  shows "set (ai_records_fts (current (fst (remove_db E c i)))) \<subseteq> set (ai_records_fts (current c))"
proof (cases "int64 i")
  case False
  then show ?thesis by (simp add: remove_db_def)
next
  case True
  obtain t n where ex: "exec_delete E (current c) i = (t, n)" by force
  have inv: "tables_inv E t" using assms(1) ex by (auto simp: conn_inv_def dest: exec_delete_inv)
  have cur: "current (fst (remove_db E c i)) = t"
    using True ex by (simp add: remove_db_def commit_def)
  have "ai_records_fts t = map (index_entry E) (filter (\<lambda>r. row_id r \<noteq> i) (ai_records (current c)))"
    using inv by (simp add: tables_inv_def exec_delete_rows[OF ex])
  moreover have "ai_records_fts (current c) = map (index_entry E) (ai_records (current c))"
    using assms by (simp add: conn_inv_def tables_inv_def)
  ultimately show ?thesis by (auto simp: cur)
qed

section \<open>Index consistency\<close>

text \<open>
  Claim C1 (index consistency). After any sequence of calls on a new database, in the
  state the connection sees and in the committed state, the index has exactly one entry
  per live row, under the row's key and holding the tokens of the row's current column
  values. In particular, once \<open>remove\<close> has deleted the row with key \<open>i\<close> there is no
  entry for \<open>i\<close>, and a query that matched no other entry than that of \<open>i\<close> returns the
  empty list.
\<close>

theorem index_consistency:
  "index_consistent E (current (run E new_db calls)) \<and>
   index_consistent E (committed (run E new_db calls)) \<and>
   (\<forall>i query q limit.
      int64 i \<and> utf8_encodable query \<and> int64 limit \<and> parse_query E query = Some q \<and>
      (\<forall>e\<in>set (ai_records_fts (current (run E new_db calls))). matches E q (snd e) \<longrightarrow> fst e = i)
      \<longrightarrow> i \<notin> fst ` set (ai_records_fts (current (fst (remove_db E (run E new_db calls) i)))) \<and>
          snd (search E (fst (remove_db E (run E new_db calls) i)) query limit) = Inr [])"
proof -
  let ?c = "run E new_db calls"
  have inv: "conn_inv E ?c" by (rule run_inv[OF new_db_inv])
  have "index_consistent E (current ?c)" "index_consistent E (committed ?c)"
    using inv by (simp_all add: conn_inv_def tables_inv_consistent)
  moreover have "i \<notin> fst ` set (ai_records_fts (current (fst (remove_db E ?c i)))) \<and>
      snd (search E (fst (remove_db E ?c i)) query limit) = Inr []"
    if h: "int64 i" "utf8_encodable query" "int64 limit" "parse_query E query = Some q"
       "\<forall>e\<in>set (ai_records_fts (current ?c)). matches E q (snd e) \<longrightarrow> fst e = i"
    for i query q limit
  proof -
    let ?c' = "fst (remove_db E ?c i)"
    have gone: "i \<notin> fst ` set (ai_records_fts (current ?c'))"
      by (rule remove_db_fts_keys[OF inv h(1)])
    have "\<forall>e\<in>set (ai_records_fts (current ?c')). \<not> matches E q (snd e)"
      using gone h(5) remove_db_fts_subset[OF inv, of i] by force
    then have "match_rows E (current ?c') q = []" by (rule match_rows_empty)
    with h gone show ?thesis by (simp add: search_def sql_limit_def)
  qed
  ultimately show ?thesis by blast
qed

theorem index_consistency_witness:
  "index_consistent toy_fts5 (current (run toy_fts5 new_db sample_calls)) \<and>
   index_consistent toy_fts5 (committed (run toy_fts5 new_db sample_calls)) \<and>
   int64 2 \<and> utf8_encodable [114] \<and> int64 20 \<and> parse_query toy_fts5 [114] = Some [[114]] \<and>
   map fst (filter (\<lambda>e. matches toy_fts5 [[114]] (snd e))
              (ai_records_fts (current (run toy_fts5 new_db sample_calls)))) = [2] \<and>
   2 \<notin> fst ` set (ai_records_fts (current (fst (remove_db toy_fts5 (run toy_fts5 new_db sample_calls) 2)))) \<and>
   snd (search toy_fts5 (fst (remove_db toy_fts5 (run toy_fts5 new_db sample_calls) 2)) [114] 20) = Inr []"
proof -
  have h: "int64 2 \<and> utf8_encodable [114] \<and> int64 20 \<and> parse_query toy_fts5 [114] = Some [[114]] \<and>
    (\<forall>e\<in>set (ai_records_fts (current (run toy_fts5 new_db sample_calls))).
       matches toy_fts5 [[114]] (snd e) \<longrightarrow> fst e = 2)"
    by (simp add: sample_calls_def model_defs)
  note ic = index_consistency[of toy_fts5 sample_calls]
  from ic have a: "index_consistent toy_fts5 (current (run toy_fts5 new_db sample_calls))"
    and b: "index_consistent toy_fts5 (committed (run toy_fts5 new_db sample_calls))"
    by simp_all
  from ic have "\<forall>i query q limit.
      int64 i \<and> utf8_encodable query \<and> int64 limit \<and> parse_query toy_fts5 query = Some q \<and>
      (\<forall>e\<in>set (ai_records_fts (current (run toy_fts5 new_db sample_calls))).
         matches toy_fts5 q (snd e) \<longrightarrow> fst e = i)
      \<longrightarrow> i \<notin> fst ` set (ai_records_fts (current (fst (remove_db toy_fts5 (run toy_fts5 new_db sample_calls) i)))) \<and>
          snd (search toy_fts5 (fst (remove_db toy_fts5 (run toy_fts5 new_db sample_calls) i)) query limit) = Inr []"
    by (elim conjE)
  from this[rule_format, where i = 2 and query = "[114]" and q = "[[114]]" and limit = 20] h
  have "2 \<notin> fst ` set (ai_records_fts (current (fst (remove_db toy_fts5 (run toy_fts5 new_db sample_calls) 2)))) \<and>
    snd (search toy_fts5 (fst (remove_db toy_fts5 (run toy_fts5 new_db sample_calls) 2)) [114] 20) = Inr []"
    by simp
  moreover have "map fst (filter (\<lambda>e. matches toy_fts5 [[114]] (snd e))
      (ai_records_fts (current (run toy_fts5 new_db sample_calls)))) = [2]"
    by (simp add: sample_calls_def model_defs)
  ultimately show ?thesis
    using h a b by (simp add: h)
qed
section \<open>Identifiers\<close>

lemma executemany_rows:
  "executemany E t clock k rs n = (t', res) \<Longrightarrow>
   \<exists>new. ai_records t' = ai_records t @ new \<and> sorted_wrt (<) (map row_id new) \<and>
         (\<forall>x\<in>set new. sqlite_sequence t < row_id x \<and> row_id x \<le> sqlite_sequence t') \<and>
         sqlite_sequence t \<le> sqlite_sequence t'"
proof (induction rs arbitrary: t k n)
  case Nil
  then show ?case by simp
next
  case (Cons r rs)
  show ?case
  proof (cases "exec_insert E t (clock k) r")
    case (Inl e)
    with Cons.prems show ?thesis by simp
  next
    case (Inr p)
    obtain t1 rid where p: "p = (t1, rid)" by (cases p)
    note facts = exec_insert_Inr[OF Inr[unfolded p]]
    from Cons.prems Inr p have "executemany E t1 clock (Suc k) rs (n + 1) = (t', res)" by simp
    from Cons.IH[OF this] obtain new where new: "ai_records t' = ai_records t1 @ new"
      "sorted_wrt (<) (map row_id new)"
      "\<forall>x\<in>set new. sqlite_sequence t1 < row_id x \<and> row_id x \<le> sqlite_sequence t'"
      "sqlite_sequence t1 \<le> sqlite_sequence t'" by blast
    let ?row = "\<lparr>row_id = rid, row_name = name r, row_provider = provider r,
             row_description = description r, row_capabilities = capabilities r,
             row_tags = tags r, row_created_at = clock k\<rparr>"
    have lt: "sqlite_sequence t < rid" using facts(1) new_rowid_gt_seq[of t] by simp
    have "ai_records t' = ai_records t @ (?row # new)" using new(1) facts(5) by simp
    moreover have "sorted_wrt (<) (map row_id (?row # new))"
      using new(2,3) facts(4) by auto
    moreover have "\<forall>x\<in>set (?row # new). sqlite_sequence t < row_id x \<and> row_id x \<le> sqlite_sequence t'"
      using new(3,4) lt facts(4) by auto
    moreover have "sqlite_sequence t \<le> sqlite_sequence t'"
      using new(4) lt facts(4) by simp
    ultimately show ?thesis by blast
  qed
qed

lemma add_ai_Inr:
  assumes "add_ai E c now r = (c', Inr i)"
  shows "i = new_rowid (current c)" and "sqlite_sequence (current c') = i"
    and "ai_records (current c') = ai_records (current c) @
           [\<lparr>row_id = i, row_name = name r, row_provider = provider r,
             row_description = description r, row_capabilities = capabilities r,
             row_tags = tags r, row_created_at = now\<rparr>]"
    and "committed c' = current c'"
  using assms
  by (auto simp: add_ai_def commit_def split: sum.splits dest: exec_insert_Inr)

lemma add_ai_Inl: "add_ai E c now r = (c', Inl e) \<Longrightarrow> c' = c"
  by (auto simp: add_ai_def split: sum.splits)

lemma bulk_add_current:
  "current (fst (bulk_add E c clock rs)) = fst (executemany E (current c) clock 0 rs 0)"
  by (simp add: bulk_add_def commit_def split: prod.splits sum.splits)

lemma remove_db_rows:
  "ai_records (current (fst (remove_db E c i))) =
     (if int64 i then filter (\<lambda>r. row_id r \<noteq> i) (ai_records (current c))
      else ai_records (current c))"
  by (auto simp: remove_db_def commit_def split: prod.splits dest: exec_delete_rows)

lemma remove_db_seq:
  "sqlite_sequence (current (fst (remove_db E c i))) = sqlite_sequence (current c)"
  by (auto simp: remove_db_def commit_def split: prod.splits dest: exec_delete_seq)

lemma bulk_add_committed:
  "committed (fst (bulk_add E c clock rs)) =
     (case snd (bulk_add E c clock rs) of
        Inl e \<Rightarrow> committed c
      | Inr n \<Rightarrow> current (fst (bulk_add E c clock rs)))"
  by (simp add: bulk_add_def commit_def split: prod.splits sum.splits)

lemma remove_db_committed:
  "committed (fst (remove_db E c i)) =
     (if int64 i then current (fst (remove_db E c i)) else committed c)"
  by (simp add: remove_db_def commit_def split: prod.splits)

text \<open>
  The key counter of the committed state never goes down and never passes that of the
  state the handle sees.
\<close>

lemma step_sequence:
  assumes "sqlite_sequence (committed c) \<le> sqlite_sequence (current c)"
  shows "sqlite_sequence (committed c) \<le> sqlite_sequence (committed (step E c call)) \<and>
         sqlite_sequence (committed (step E c call)) \<le> sqlite_sequence (current (step E c call))"
proof (cases call)
  case (AddAi now r)
  show ?thesis
  proof (cases "snd (add_ai E c now r)")
    case (Inl e)
    then have "add_ai E c now r = (fst (add_ai E c now r), Inl e)" by (simp add: prod_eq_iff)
    from add_ai_Inl[OF this] assms AddAi show ?thesis by simp
  next
    case (Inr i)
    then have "add_ai E c now r = (fst (add_ai E c now r), Inr i)" by (simp add: prod_eq_iff)
    from add_ai_Inr[OF this] assms AddAi new_rowid_gt_seq[of "current c"] show ?thesis by simp
  qed
next
  case (BulkAdd clock rs)
  obtain t' res where ex: "executemany E (current c) clock 0 rs 0 = (t', res)" by force
  from executemany_rows[OF ex] have le: "sqlite_sequence (current c) \<le> sqlite_sequence t'"
    by blast
  have cur: "current (fst (bulk_add E c clock rs)) = t'" by (simp add: bulk_add_current ex)
  show ?thesis
    using assms le by (cases "snd (bulk_add E c clock rs)") (simp_all add: BulkAdd bulk_add_committed cur)
next
  case (Remove i)
  then show ?thesis using assms by (simp add: remove_db_committed remove_db_seq)
next
  case (Search query limit)
  then show ?thesis using assms by (simp add: search_state)
next
  case ListAll
  then show ?thesis using assms by simp
next
  case Reopen
  then show ?thesis by (simp add: init_db_def close_def)
qed

lemma returned_ids_step:
  "returned_ids E c (call # calls) =
     (case call of
        AddAi now r \<Rightarrow> (case snd (add_ai E c now r) of Inr i \<Rightarrow> [i] | Inl e \<Rightarrow> [])
      | _ \<Rightarrow> []) @ returned_ids E (step E c call) calls"
  by (cases call) simp_all

lemma add_ai_returned:
  assumes "sqlite_sequence (committed c) \<le> sqlite_sequence (current c)"
    and "snd (add_ai E c now r) = Inr i"
  shows "sqlite_sequence (committed c) < i"
    and "sqlite_sequence (committed (step E c (AddAi now r))) = i"
proof -
  from assms(2) have "add_ai E c now r = (fst (add_ai E c now r), Inr i)"
    by (simp add: prod_eq_iff)
  note facts = add_ai_Inr[OF this]
  show "sqlite_sequence (committed c) < i"
    using assms(1) facts(1) new_rowid_gt_seq[of "current c"] by simp
  show "sqlite_sequence (committed (step E c (AddAi now r))) = i"
    using facts(2,4) by simp
qed

text \<open>
  Over any sequence of calls, closing and re-opening included, the identifiers that
  \<open>add_ai\<close> returns are strictly increasing: \<open>add_ai\<close> commits the row it returns the
  key of, and the committed key counter is never lowered.
\<close>

lemma returned_ids_increasing:
  "sqlite_sequence (committed c) \<le> sqlite_sequence (current c) \<Longrightarrow>
   sorted_wrt (<) (returned_ids E c calls) \<and>
   (\<forall>i\<in>set (returned_ids E c calls). sqlite_sequence (committed c) < i)"
proof (induction calls arbitrary: c)
  case Nil
  then show ?case by simp
next
  case (Cons call calls)
  note s = step_sequence[OF Cons.prems, of E call]
  from s have ih: "sorted_wrt (<) (returned_ids E (step E c call) calls)"
    "\<forall>i\<in>set (returned_ids E (step E c call) calls). sqlite_sequence (committed (step E c call)) < i"
    using Cons.IH[of "step E c call"] by simp_all
  show ?case
  proof (cases "\<exists>now r i. call = AddAi now r \<and> snd (add_ai E c now r) = Inr i")
    case True
    then obtain now r i where call: "call = AddAi now r" and res: "snd (add_ai E c now r) = Inr i"
      by blast
    note a = add_ai_returned[OF Cons.prems res]
    have eq: "returned_ids E c (call # calls) = i # returned_ids E (step E c call) calls"
      by (simp add: call res)
    show ?thesis unfolding eq using ih a call by auto
  next
    case False
    then have eq: "returned_ids E c (call # calls) = returned_ids E (step E c call) calls"
      by (cases call) (auto simp: returned_ids_step split: sum.splits)
    show ?thesis unfolding eq using ih s by fastforce
  qed
qed

text \<open>
  Claim C4 (identity monotonicity) on the calls \<open>bulk_add\<close> of \<open>math_ai\<close> and
  \<open>surrogate_ai\<close>, \<open>list_all\<close>, \<open>close\<close>, re-open, \<open>add_ai\<close> of \<open>vision_bot\<close> and
  \<open>list_all\<close>. The batch fails at its second record and leaves the first in the table
  under identifier 1, where \<open>list_all\<close> shows it; closing drops it with the open
  transaction, and \<open>add_ai\<close> then returns 1 again, now for another record.
\<close>

theorem identifier_reissued:
  "snd (bulk_add toy_fts5 new_db (\<lambda>k. noon) [math_ai, surrogate_ai]) = Inl UnicodeEncodeError \<and>
   map (\<lambda>d. map_of d ''id'') (list_all_db failed_batch) = [Some (PyInt 1)] \<and>
   map (\<lambda>d. map_of d ''name'') (list_all_db failed_batch) = [Some (PyStr (name math_ai))] \<and>
   list_all_db (step toy_fts5 failed_batch Reopen) = [] \<and>
   snd (add_ai toy_fts5 (step toy_fts5 failed_batch Reopen) noon vision_bot) = Inr 1 \<and>
   map (\<lambda>d. map_of d ''id'')
     (list_all_db (fst (add_ai toy_fts5 (step toy_fts5 failed_batch Reopen) noon vision_bot))) =
     [Some (PyInt 1)] \<and>
   map (\<lambda>d. map_of d ''name'')
     (list_all_db (fst (add_ai toy_fts5 (step toy_fts5 failed_batch Reopen) noon vision_bot))) =
     [Some (PyStr (name vision_bot))]"
  by (simp add: failed_batch_def model_defs)

section \<open>Deleting a row\<close>

lemma remove_db_result:
  "int64 i \<Longrightarrow> snd (remove_db E c i) = Inr (i \<in> row_id ` set (ai_records (current c)))"
proof -
  assume i: "int64 i"
  obtain t n where ex: "exec_delete E (current c) i = (t, n)" by force
  have "(0 < n) = (i \<in> row_id ` set (ai_records (current c)))"
    by (auto simp: exec_delete_count[OF ex] filter_empty_conv)
  with i ex show ?thesis by (simp add: remove_db_def)
qed

text \<open>
  Claim C6 (delete reports what it did), as amended. For an identifier in the range of
  SQLite's 64-bit integers, \<open>remove\<close> raises nothing and returns whether a row with that
  identifier was present; afterwards no row has the identifier, so a second \<open>remove\<close>
  of it returns false, as does the \<open>remove\<close> of an identifier that no row has.
\<close>

theorem remove_reports_presence:
  assumes "int64 i"
  shows "snd (remove_db E c i) = Inr (i \<in> row_id ` set (ai_records (current c))) \<and>
         i \<notin> row_id ` set (ai_records (current (fst (remove_db E c i)))) \<and>
         snd (remove_db E (fst (remove_db E c i)) i) = Inr False"
proof -
  have gone: "i \<notin> row_id ` set (ai_records (current (fst (remove_db E c i))))"
    using assms by (auto simp: remove_db_rows)
  show ?thesis
    using gone remove_db_result[OF assms, of E c]
      remove_db_result[OF assms, of E "fst (remove_db E c i)"] by simp
qed

theorem remove_reports_presence_witness:
  "int64 2 \<and>
   snd (remove_db toy_fts5 (run toy_fts5 new_db sample_calls) 2) = Inr True \<and>
   snd (remove_db toy_fts5 (fst (remove_db toy_fts5 (run toy_fts5 new_db sample_calls) 2)) 2) = Inr False \<and>
   snd (remove_db toy_fts5 new_db 999) = Inr False \<and>
   2 \<notin> row_id ` set (ai_records (current (fst (remove_db toy_fts5 (run toy_fts5 new_db sample_calls) 2))))"
proof -
  have i: "int64 2" "int64 999" by (simp_all add: int64_def max_rowid_def)
  have "2 \<in> row_id ` set (ai_records (current (run toy_fts5 new_db sample_calls)))"
    by (simp add: sample_calls_def model_defs)
  moreover have "999 \<notin> row_id ` set (ai_records (current new_db))"
    by (simp add: new_db_def empty_tables_def)
  ultimately show ?thesis
    using i remove_reports_presence[OF i(1), of toy_fts5 "run toy_fts5 new_db sample_calls"]
      remove_reports_presence[OF i(2), of toy_fts5 new_db]
    by simp
qed

text \<open>
  Claim C6 as stated fails for the identifier 9223372036854775808, which no row has and no row
  can have: \<open>remove\<close> raises \<open>OverflowError\<close> instead of returning false.
\<close>

theorem remove_reports_presence_counterexample:
  "9223372036854775808 \<notin> row_id ` set (ai_records (current new_db)) \<and>
   remove_db toy_fts5 new_db 9223372036854775808 = (new_db, Inl OverflowError)"
  by (simp add: model_defs)

lemma fold_remove1_keep:
  "\<forall>g\<in>set gone. \<not> P (index_entry E g) \<Longrightarrow>
   filter P (fold (\<lambda>old idx. remove1 (index_entry E old) idx) gone idx) = filter P idx"
proof (induction gone arbitrary: idx)
  case Nil
  then show ?case by simp
next
  case (Cons g gone)
  then have "filter P (remove1 (index_entry E g) idx) = filter P idx"
    by (simp add: filter_remove1 remove1_idem)
  with Cons show ?case by simp
qed

text \<open>
  In the state the handle sees, \<open>remove(i)\<close> leaves every row and every index entry of
  another identifier as it was, and does not touch the key counter.
\<close>

lemma remove_db_frame:
  "filter (\<lambda>r. row_id r \<noteq> i) (ai_records (current (fst (remove_db E c i)))) =
     filter (\<lambda>r. row_id r \<noteq> i) (ai_records (current c)) \<and>
   filter (\<lambda>e. fst e \<noteq> i) (ai_records_fts (current (fst (remove_db E c i)))) =
     filter (\<lambda>e. fst e \<noteq> i) (ai_records_fts (current c)) \<and>
   sqlite_sequence (current (fst (remove_db E c i))) = sqlite_sequence (current c)"
proof -
  have rows: "filter (\<lambda>r. row_id r \<noteq> i) (ai_records (current (fst (remove_db E c i)))) =
     filter (\<lambda>r. row_id r \<noteq> i) (ai_records (current c))"
    by (simp add: remove_db_rows)
  have fts: "filter (\<lambda>e. fst e \<noteq> i) (ai_records_fts (current (fst (remove_db E c i)))) =
     filter (\<lambda>e. fst e \<noteq> i) (ai_records_fts (current c))"
  proof (cases "int64 i")
    case False
    then show ?thesis by (simp add: remove_db_def)
  next
    case True
    have "\<forall>g\<in>set (filter (\<lambda>r. row_id r = i) (ai_records (current c))).
            \<not> fst (index_entry E g) \<noteq> i"
      by (simp add: index_entry_def)
    from fold_remove1_keep[where P = "\<lambda>e. fst e \<noteq> i", OF this] True
    show ?thesis
      by (simp add: remove_db_def exec_delete_def Let_def commit_def fold_ad_fts)
  qed
  show ?thesis using rows fts by (simp add: remove_db_seq)
qed

text \<open>
  When no transaction is open, the same holds of the committed state.
\<close>

lemma remove_db_frame_committed:
  assumes "committed c = current c"
  shows "filter (\<lambda>r. row_id r \<noteq> i) (ai_records (committed (fst (remove_db E c i)))) =
           filter (\<lambda>r. row_id r \<noteq> i) (ai_records (committed c)) \<and>
         filter (\<lambda>e. fst e \<noteq> i) (ai_records_fts (committed (fst (remove_db E c i)))) =
           filter (\<lambda>e. fst e \<noteq> i) (ai_records_fts (committed c))"
  using assms remove_db_frame[of i E c] by (simp add: remove_db_committed)

text \<open>
  Claim C10 (frame of delete) on the handle left by the \<open>bulk_add\<close> of \<open>math_ai\<close> and
  \<open>surrogate_ai\<close>, which failed at the second record: the committed state has no row;
  \<open>remove(999)\<close> finds nothing to delete and returns false, and its \<open>commit()\<close> makes
  the row with identifier 1 and its index entry part of the committed state.
\<close>

theorem remove_commits_pending_row:
  "ai_records (committed failed_batch) = [] \<and>
   ai_records_fts (committed failed_batch) = [] \<and>
   snd (remove_db toy_fts5 failed_batch 999) = Inr False \<and>
   map row_id (ai_records (committed (fst (remove_db toy_fts5 failed_batch 999)))) = [1] \<and>
   map row_name (ai_records (committed (fst (remove_db toy_fts5 failed_batch 999)))) =
     [name math_ai] \<and>
   map fst (ai_records_fts (committed (fst (remove_db toy_fts5 failed_batch 999)))) = [1]"
  by (simp add: failed_batch_def model_defs)

section \<open>Listing and round trip\<close>

lemma step_committed:
  "committed (step E c call) = committed c \<or>
   committed (step E c call) = current (step E c call)"
proof (cases call)
  case (AddAi now r)
  show ?thesis
  proof (cases "snd (add_ai E c now r)")
    case (Inl e)
    then have "add_ai E c now r = (fst (add_ai E c now r), Inl e)" by (simp add: prod_eq_iff)
    from add_ai_Inl[OF this] AddAi show ?thesis by simp
  next
    case (Inr i)
    then have "add_ai E c now r = (fst (add_ai E c now r), Inr i)" by (simp add: prod_eq_iff)
    from add_ai_Inr(4)[OF this] AddAi show ?thesis by simp
  qed
next
  case (BulkAdd clock rs)
  then show ?thesis
    by (cases "snd (bulk_add E c clock rs)") (simp_all add: bulk_add_committed)
next
  case (Remove i)
  then show ?thesis by (simp add: remove_db_committed)
next
  case (Search query limit)
  then show ?thesis by (simp add: search_state)
next
  case ListAll
  then show ?thesis by simp
next
  case Reopen
  then show ?thesis by (simp add: init_db_def close_def)
qed

lemma step_rows_sorted:
  assumes inv: "conn_inv E c" and s: "sorted_wrt (<) (map row_id (ai_records (current c)))"
    and sc: "sorted_wrt (<) (map row_id (ai_records (committed c)))"
  shows "sorted_wrt (<) (map row_id (ai_records (current (step E c call)))) \<and>
         sorted_wrt (<) (map row_id (ai_records (committed (step E c call))))"
proof -
  have le: "\<forall>r\<in>set (ai_records (current c)). row_id r \<le> sqlite_sequence (current c)"
    using inv by (simp add: conn_inv_def tables_inv_def list_all_iff)
  have cur: "sorted_wrt (<) (map row_id (ai_records (current (step E c call))))"
  proof (cases call)
    case (AddAi now r)
    show ?thesis
    proof (cases "snd (add_ai E c now r)")
      case (Inl e)
      then have "add_ai E c now r = (fst (add_ai E c now r), Inl e)" by (simp add: prod_eq_iff)
      from add_ai_Inl[OF this] s AddAi show ?thesis by simp
    next
      case (Inr i)
      then have "add_ai E c now r = (fst (add_ai E c now r), Inr i)" by (simp add: prod_eq_iff)
      from add_ai_Inr[OF this] s AddAi new_rowid_gt_rows[of _ "current c"]
      show ?thesis by (auto simp: sorted_wrt_append)
    qed
  next
    case (BulkAdd clock rs)
    obtain t' res where ex: "executemany E (current c) clock 0 rs 0 = (t', res)" by force
    from executemany_rows[OF ex] obtain new where new:
      "ai_records t' = ai_records (current c) @ new" "sorted_wrt (<) (map row_id new)"
      "\<forall>x\<in>set new. sqlite_sequence (current c) < row_id x \<and> row_id x \<le> sqlite_sequence t'"
      by blast
    have cur: "current (fst (bulk_add E c clock rs)) = t'" by (simp add: bulk_add_current ex)
    show ?thesis using s new le by (fastforce simp: BulkAdd cur sorted_wrt_append)
  next
    case (Remove i)
    then show ?thesis using s by (simp add: remove_db_rows sorted_wrt_map sorted_wrt_filter)
  next
    case (Search query limit)
    then show ?thesis using s by (simp add: search_state)
  next
    case ListAll
    then show ?thesis using s by simp
  next
    case Reopen
    then show ?thesis using sc by (simp add: init_db_def close_def)
  qed
  with sc step_committed[of E c call] show ?thesis by auto
qed

lemma run_rows_sorted:
  "conn_inv E c \<Longrightarrow> sorted_wrt (<) (map row_id (ai_records (current c))) \<Longrightarrow>
   sorted_wrt (<) (map row_id (ai_records (committed c))) \<Longrightarrow>
   sorted_wrt (<) (map row_id (ai_records (current (run E c calls))))"
  unfolding run_def
  by (induction calls arbitrary: c) (simp_all add: step_inv step_rows_sorted)

text \<open>
  Claim C9 (listing). \<open>list_all\<close> returns one dict per row of the table, no more and no
  fewer, in ascending order of identifier; the dict of a row holds the row's \<open>id\<close>,
  \<open>name\<close>, \<open>provider\<close>, \<open>description\<close>, \<open>capabilities\<close>, \<open>tags\<close> and \<open>created_at\<close>.
  After any sequence of calls on a new database the identifiers are pairwise different
  and the rows of the table are already in that order, which is the order of insertion.
\<close>

theorem list_all_complete_ordered:
  "(\<exists>rows. mset rows = mset (ai_records (current c)) \<and> sorted (map row_id rows) \<and>
      list_all_db c =
        map (\<lambda>r. [(''id'', PyInt (row_id r)), (''name'', PyStr (row_name r)),
                   (''provider'', PyStr (row_provider r)),
                   (''description'', PyStr (row_description r)),
                   (''capabilities'', PyStr (row_capabilities r)),
                   (''tags'', PyStr (row_tags r)),
                   (''created_at'', PyStr (row_created_at r))]) rows) \<and>
   length (list_all_db c) = length (ai_records (current c)) \<and>
   list_all_db (run E new_db calls) =
     map (\<lambda>r. [(''id'', PyInt (row_id r)), (''name'', PyStr (row_name r)),
                (''provider'', PyStr (row_provider r)),
                (''description'', PyStr (row_description r)),
                (''capabilities'', PyStr (row_capabilities r)),
                (''tags'', PyStr (row_tags r)),
                (''created_at'', PyStr (row_created_at r))])
         (ai_records (current (run E new_db calls))) \<and>
   sorted_wrt (<) (map row_id (ai_records (current (run E new_db calls))))"
proof -
  let ?dict = "\<lambda>r. [(''id'', PyInt (row_id r)), (''name'', PyStr (row_name r)),
                (''provider'', PyStr (row_provider r)),
                (''description'', PyStr (row_description r)),
                (''capabilities'', PyStr (row_capabilities r)),
                (''tags'', PyStr (row_tags r)),
                (''created_at'', PyStr (row_created_at r))]"
  have lr: "list_row = ?dict" by (rule ext) (simp add: list_row_def)
  have a: "\<exists>rows. mset rows = mset (ai_records (current c)) \<and> sorted (map row_id rows) \<and>
      list_all_db c = map ?dict rows"
    by (rule exI[of _ "sort_key row_id (ai_records (current c))"])
       (simp add: list_all_db_def lr)
  have s: "sorted_wrt (<) (map row_id (ai_records (current (run E new_db calls))))"
    by (rule run_rows_sorted[OF new_db_inv]) (simp_all add: new_db_def empty_tables_def)
  then have "sorted (map row_id (ai_records (current (run E new_db calls))))"
    by (simp add: strict_sorted_iff)
  then have b: "list_all_db (run E new_db calls) =
      map ?dict (ai_records (current (run E new_db calls)))"
    by (simp add: list_all_db_def sort_key_id_if_sorted lr)
  have l: "length (list_all_db c) = length (ai_records (current c))"
    by (simp add: list_all_db_def)
  from a b s l show ?thesis by blast
qed

theorem list_all_complete_ordered_witness:
  "list_all_db shuffled_db =
     [[(''id'', PyInt 1), (''name'', PyStr [86]), (''provider'', PyStr [76]),
       (''description'', PyStr [105]), (''capabilities'', PyStr [118]),
       (''tags'', PyStr [111]), (''created_at'', PyStr noon)],
      [(''id'', PyInt 3), (''name'', PyStr [67]), (''provider'', PyStr [69]),
       (''description'', PyStr [99]), (''capabilities'', PyStr [100]),
       (''tags'', PyStr [111]), (''created_at'', PyStr noon)]] \<and>
   length (list_all_db shuffled_db) = length (ai_records (current shuffled_db)) \<and>
   list_all_db (run toy_fts5 new_db listing_calls) =
     [[(''id'', PyInt 1), (''name'', PyStr [86]), (''provider'', PyStr [76]),
       (''description'', PyStr [105, 109, 103]), (''capabilities'', PyStr [118, 44, 111]),
       (''tags'', PyStr [111, 102, 102]), (''created_at'', PyStr noon)],
      [(''id'', PyInt 3), (''name'', PyStr [67]), (''provider'', PyStr [69]),
       (''description'', PyStr [99]), (''capabilities'', PyStr [99, 44, 100]),
       (''tags'', PyStr [111, 102, 102]), (''created_at'', PyStr noon)],
      [(''id'', PyInt 4), (''name'', PyStr [77]), (''provider'', PyStr [69]),
       (''description'', PyStr [109]), (''capabilities'', PyStr [114, 44, 97]),
       (''tags'', PyStr [111, 102, 102]), (''created_at'', PyStr noon)]] \<and>
   map row_id (ai_records (current (run toy_fts5 new_db listing_calls))) = [1, 3, 4] \<and>
   sorted_wrt (<) (map row_id (ai_records (current (run toy_fts5 new_db listing_calls))))"
proof -
  have rows: "map row_id (ai_records (current (run toy_fts5 new_db listing_calls))) = [1, 3, 4]"
    by (simp add: listing_calls_def model_defs)
  have sh: "list_all_db shuffled_db =
     [[(''id'', PyInt 1), (''name'', PyStr [86]), (''provider'', PyStr [76]),
       (''description'', PyStr [105]), (''capabilities'', PyStr [118]),
       (''tags'', PyStr [111]), (''created_at'', PyStr noon)],
      [(''id'', PyInt 3), (''name'', PyStr [67]), (''provider'', PyStr [69]),
       (''description'', PyStr [99]), (''capabilities'', PyStr [100]),
       (''tags'', PyStr [111]), (''created_at'', PyStr noon)]]"
    by (simp add: shuffled_db_def list_all_db_def list_row_def init_db_def)
  have ev: "map (\<lambda>r. [(''id'', PyInt (row_id r)), (''name'', PyStr (row_name r)),
                (''provider'', PyStr (row_provider r)),
                (''description'', PyStr (row_description r)),
                (''capabilities'', PyStr (row_capabilities r)),
                (''tags'', PyStr (row_tags r)),
                (''created_at'', PyStr (row_created_at r))])
         (ai_records (current (run toy_fts5 new_db listing_calls))) =
     [[(''id'', PyInt 1), (''name'', PyStr [86]), (''provider'', PyStr [76]),
       (''description'', PyStr [105, 109, 103]), (''capabilities'', PyStr [118, 44, 111]),
       (''tags'', PyStr [111, 102, 102]), (''created_at'', PyStr noon)],
      [(''id'', PyInt 3), (''name'', PyStr [67]), (''provider'', PyStr [69]),
       (''description'', PyStr [99]), (''capabilities'', PyStr [99, 44, 100]),
       (''tags'', PyStr [111, 102, 102]), (''created_at'', PyStr noon)],
      [(''id'', PyInt 4), (''name'', PyStr [77]), (''provider'', PyStr [69]),
       (''description'', PyStr [109]), (''capabilities'', PyStr [114, 44, 97]),
       (''tags'', PyStr [111, 102, 102]), (''created_at'', PyStr noon)]]"
    by (simp add: listing_calls_def model_defs)
  note t = list_all_complete_ordered[of shuffled_db toy_fts5 listing_calls]
  from t have "length (list_all_db shuffled_db) = length (ai_records (current shuffled_db))"
    and "list_all_db (run toy_fts5 new_db listing_calls) =
     map (\<lambda>r. [(''id'', PyInt (row_id r)), (''name'', PyStr (row_name r)),
                (''provider'', PyStr (row_provider r)),
                (''description'', PyStr (row_description r)),
                (''capabilities'', PyStr (row_capabilities r)),
                (''tags'', PyStr (row_tags r)),
                (''created_at'', PyStr (row_created_at r))])
         (ai_records (current (run toy_fts5 new_db listing_calls)))"
    and "sorted_wrt (<) (map row_id (ai_records (current (run toy_fts5 new_db listing_calls))))"
    by blast+
  with rows sh ev show ?thesis by simp
qed





section \<open>Searching\<close>

lemma set_match_rows:
  "(r, s) \<in> set (match_rows E t q) \<longleftrightarrow>
     r \<in> set (ai_records t) \<and>
     (\<exists>f\<in>set (ai_records_fts t). matches E q (snd f) \<and> fst f = row_id r \<and>
        s = bm25 E q (ai_records_fts t) (row_id r))"
proof
  assume "(r, s) \<in> set (match_rows E t q)"
  then show "r \<in> set (ai_records t) \<and>
     (\<exists>f\<in>set (ai_records_fts t). matches E q (snd f) \<and> fst f = row_id r \<and>
        s = bm25 E q (ai_records_fts t) (row_id r))"
    by (auto simp: match_rows_def intro!: bexI)
next
  assume "r \<in> set (ai_records t) \<and>
     (\<exists>f\<in>set (ai_records_fts t). matches E q (snd f) \<and> fst f = row_id r \<and>
        s = bm25 E q (ai_records_fts t) (row_id r))"
  then show "(r, s) \<in> set (match_rows E t q)"
    by (auto simp: match_rows_def)
qed

lemma search_parsed:
  assumes "utf8_encodable query" "int64 limit" "parse_query E query = Some q"
  shows "search E c query limit =
           (c, Inr (map (\<lambda>(r, s). search_row r s)
                     (sql_limit limit (sort_key snd (match_rows E (current c) q)))))"
  using assms by (simp add: search_def)

lemma search_row_keys:
  "map_of (search_row r s) ''id'' = Some (PyInt (row_id r)) \<and>
   map_of (search_row r s) ''name'' = Some (PyStr (row_name r)) \<and>
   map_of (search_row r s) ''provider'' = Some (PyStr (row_provider r)) \<and>
   map_of (search_row r s) ''description'' = Some (PyStr (row_description r)) \<and>
   map_of (search_row r s) ''capabilities'' = Some (PyStr (row_capabilities r)) \<and>
   map_of (search_row r s) ''tags'' = Some (PyStr (row_tags r)) \<and>
   map_of (search_row r s) ''score'' = Some (PyFloat s) \<and>
   map_of (search_row r s) ''created_at'' = None"
  by (simp add: search_row_def)

text \<open>
  Claim C2 (search results), as amended. For a query that can be bound as UTF-8 text and
  that FTS5 parses, and a limit from 0 to the largest 64-bit integer, \<open>search\<close> raises
  nothing, changes nothing and returns the first \<open>limit\<close> of the matching rows in
  ascending order of score (all of them when there are fewer). Every entry is made of a
  live row whose index entry matches the query: it holds the row's \<open>id\<close>, \<open>name\<close>,
  \<open>provider\<close>, \<open>description\<close>, \<open>capabilities\<close> and \<open>tags\<close> and the \<open>bm25\<close> score
  under \<open>score\<close>, and it has no \<open>created_at\<close>. When no index entry matches, the result
  is the empty list.
\<close>

theorem search_results_ranked:
  assumes "utf8_encodable query" and "int64 limit" and "0 \<le> limit"
    and "parse_query E query = Some q"
  shows "\<exists>hits rest.
           search E c query limit = (c, Inr (map (\<lambda>(r, s). search_row r s) hits)) \<and>
           length hits \<le> nat limit \<and>
           length hits = min (nat limit) (length (match_rows E (current c) q)) \<and>
           mset (hits @ rest) = mset (match_rows E (current c) q) \<and>
           sorted (map snd (hits @ rest)) \<and>
           (\<forall>(r, s)\<in>set hits.
              r \<in> set (ai_records (current c)) \<and>
              (\<exists>f\<in>set (ai_records_fts (current c)). fst f = row_id r \<and> matches E q (snd f)) \<and>
              s = bm25 E q (ai_records_fts (current c)) (row_id r) \<and>
              map_of (search_row r s) ''id'' = Some (PyInt (row_id r)) \<and>
              map_of (search_row r s) ''name'' = Some (PyStr (row_name r)) \<and>
              map_of (search_row r s) ''provider'' = Some (PyStr (row_provider r)) \<and>
              map_of (search_row r s) ''description'' = Some (PyStr (row_description r)) \<and>
              map_of (search_row r s) ''capabilities'' = Some (PyStr (row_capabilities r)) \<and>
              map_of (search_row r s) ''tags'' = Some (PyStr (row_tags r)) \<and>
              map_of (search_row r s) ''score'' = Some (PyFloat s) \<and>
              map_of (search_row r s) ''created_at'' = None) \<and>
           ((\<forall>e\<in>set (ai_records_fts (current c)). \<not> matches E q (snd e)) \<longrightarrow> hits = [])"
proof -
  let ?all = "sort_key snd (match_rows E (current c) q)"
  let ?hits = "take (nat limit) ?all"
  let ?rest = "drop (nat limit) ?all"
  have res: "search E c query limit = (c, Inr (map (\<lambda>(r, s). search_row r s) ?hits))"
    using assms by (simp add: search_parsed sql_limit_def)
  have len: "length ?hits = min (nat limit) (length (match_rows E (current c) q))"
    by (simp add: min.commute)
  have ms: "mset (?hits @ ?rest) = mset (match_rows E (current c) q)" by simp
  have so: "sorted (map snd (?hits @ ?rest))" by simp
  have sub: "set ?hits \<subseteq> set (match_rows E (current c) q)"
    using set_take_subset[of "nat limit" ?all] by simp
  have each: "\<forall>(r, s)\<in>set ?hits.
      r \<in> set (ai_records (current c)) \<and>
      (\<exists>f\<in>set (ai_records_fts (current c)). fst f = row_id r \<and> matches E q (snd f)) \<and>
      s = bm25 E q (ai_records_fts (current c)) (row_id r) \<and>
      map_of (search_row r s) ''id'' = Some (PyInt (row_id r)) \<and>
      map_of (search_row r s) ''name'' = Some (PyStr (row_name r)) \<and>
      map_of (search_row r s) ''provider'' = Some (PyStr (row_provider r)) \<and>
      map_of (search_row r s) ''description'' = Some (PyStr (row_description r)) \<and>
      map_of (search_row r s) ''capabilities'' = Some (PyStr (row_capabilities r)) \<and>
      map_of (search_row r s) ''tags'' = Some (PyStr (row_tags r)) \<and>
      map_of (search_row r s) ''score'' = Some (PyFloat s) \<and>
      map_of (search_row r s) ''created_at'' = None"
  proof (intro ballI, clarify)
    fix r s
    assume "(r, s) \<in> set ?hits"
    with sub have "(r, s) \<in> set (match_rows E (current c) q)" by blast
    then have "r \<in> set (ai_records (current c))"
      "\<exists>f\<in>set (ai_records_fts (current c)). fst f = row_id r \<and> matches E q (snd f)"
      "s = bm25 E q (ai_records_fts (current c)) (row_id r)"
      by (auto simp: set_match_rows)
    then show "r \<in> set (ai_records (current c)) \<and>
      (\<exists>f\<in>set (ai_records_fts (current c)). fst f = row_id r \<and> matches E q (snd f)) \<and>
      s = bm25 E q (ai_records_fts (current c)) (row_id r) \<and>
      map_of (search_row r s) ''id'' = Some (PyInt (row_id r)) \<and>
      map_of (search_row r s) ''name'' = Some (PyStr (row_name r)) \<and>
      map_of (search_row r s) ''provider'' = Some (PyStr (row_provider r)) \<and>
      map_of (search_row r s) ''description'' = Some (PyStr (row_description r)) \<and>
      map_of (search_row r s) ''capabilities'' = Some (PyStr (row_capabilities r)) \<and>
      map_of (search_row r s) ''tags'' = Some (PyStr (row_tags r)) \<and>
      map_of (search_row r s) ''score'' = Some (PyFloat s) \<and>
      map_of (search_row r s) ''created_at'' = None"
      using search_row_keys[of r s] by blast
  qed
  have none: "(\<forall>e\<in>set (ai_records_fts (current c)). \<not> matches E q (snd e)) \<longrightarrow> ?hits = []"
    by (simp add: match_rows_empty)
  show ?thesis
    apply (rule exI[of _ ?hits])
    apply (rule exI[of _ ?rest])
    using res len ms so each none
    apply (intro conjI)
          apply simp_all
    done
qed

theorem search_results_ranked_witness:
  "utf8_encodable [114, 32, 79, 82, 32, 99] \<and> int64 1 \<and> (0::int) \<le> 1 \<and>
   parse_query toy_fts5 [114, 32, 79, 82, 32, 99] = Some [[114], [99]] \<and>
   snd (search toy_fts5 (run toy_fts5 new_db sample_calls) [114, 32, 79, 82, 32, 99] 1) =
     Inr [[(''id'', PyInt 3), (''name'', PyStr [67]), (''provider'', PyStr [69]),
           (''description'', PyStr [99]), (''capabilities'', PyStr [99, 44, 100]),
           (''tags'', PyStr [111, 102, 102]), (''score'', PyFloat (- 2))]] \<and>
   snd (search toy_fts5 (run toy_fts5 new_db sample_calls) [122] 1) = Inr [] \<and>
   (\<exists>hits rest.
      search toy_fts5 (run toy_fts5 new_db sample_calls) [114, 32, 79, 82, 32, 99] 1 =
        (run toy_fts5 new_db sample_calls, Inr (map (\<lambda>(r, s). search_row r s) hits)) \<and>
      length hits \<le> nat 1 \<and>
      mset (hits @ rest) =
        mset (match_rows toy_fts5 (current (run toy_fts5 new_db sample_calls)) [[114], [99]]) \<and>
      sorted (map snd (hits @ rest)))"
proof -
  have h: "utf8_encodable [114, 32, 79, 82, 32, 99]" "int64 1" "(0::int) \<le> 1"
    "parse_query toy_fts5 [114, 32, 79, 82, 32, 99] = Some [[114], [99]]"
    by (simp_all add: model_defs)
  have e1: "snd (search toy_fts5 (run toy_fts5 new_db sample_calls) [114, 32, 79, 82, 32, 99] 1) =
     Inr [[(''id'', PyInt 3), (''name'', PyStr [67]), (''provider'', PyStr [69]),
           (''description'', PyStr [99]), (''capabilities'', PyStr [99, 44, 100]),
           (''tags'', PyStr [111, 102, 102]), (''score'', PyFloat (- 2))]]"
    by (simp add: sample_calls_def model_defs)
  have e2: "snd (search toy_fts5 (run toy_fts5 new_db sample_calls) [122] 1) = Inr []"
    by (simp add: sample_calls_def model_defs)
  from search_results_ranked[OF h, of "run toy_fts5 new_db sample_calls"]
  have "\<exists>hits rest.
      search toy_fts5 (run toy_fts5 new_db sample_calls) [114, 32, 79, 82, 32, 99] 1 =
        (run toy_fts5 new_db sample_calls, Inr (map (\<lambda>(r, s). search_row r s) hits)) \<and>
      length hits \<le> nat 1 \<and>
      mset (hits @ rest) =
        mset (match_rows toy_fts5 (current (run toy_fts5 new_db sample_calls)) [[114], [99]]) \<and>
      sorted (map snd (hits @ rest))"
    by blast
  with h e1 e2 show ?thesis by blast
qed

text \<open>
  Claim C2 as stated fails on the sample. The entry that \<open>search\<close> returns for the row
  with identifier 1 has no \<open>created_at\<close>, which the stored row has (\<open>list_all\<close> shows
  it). With the limit 9223372036854775808 \<open>search\<close> raises \<open>OverflowError\<close>, and with
  a query that is a lone surrogate it raises \<open>UnicodeEncodeError\<close>, where the claim has
  it return a list.
\<close>

theorem search_results_counterexample:
  "map_of (hd (projr (snd (search toy_fts5 (run toy_fts5 new_db sample_calls) [118] 20)))) ''id'' =
     Some (PyInt 1) \<and>
   map_of (hd (projr (snd (search toy_fts5 (run toy_fts5 new_db sample_calls) [118] 20))))
     ''created_at'' = None \<and>
   map_of (hd (list_all_db (run toy_fts5 new_db sample_calls))) ''id'' = Some (PyInt 1) \<and>
   map_of (hd (list_all_db (run toy_fts5 new_db sample_calls))) ''created_at'' = Some (PyStr noon) \<and>
   snd (search toy_fts5 (run toy_fts5 new_db sample_calls) [118] 9223372036854775808) =
     Inl OverflowError \<and>
   snd (search toy_fts5 (run toy_fts5 new_db sample_calls) [55296] 20) = Inl UnicodeEncodeError"
  by (simp add: sample_calls_def model_defs)

text \<open>
  Claim C7 (the limit), as amended. \<open>search\<close> passes the limit to \<open>LIMIT ?\<close> unchecked,
  20 when the caller gives none. No limit in the range of SQLite's integers is rejected:
  a negative limit returns all the matches, the limit 0 returns the empty list, and a
  positive limit returns that many of the best matches.
\<close>

theorem limit_handling:
  assumes "utf8_encodable query" and "int64 limit" and "parse_query E query = Some q"
  shows "search_default E c query = search E c query 20 \<and>
         (limit < 0 \<longrightarrow>
            snd (search E c query limit) =
              Inr (map (\<lambda>(r, s). search_row r s) (sort_key snd (match_rows E (current c) q)))) \<and>
         (limit = 0 \<longrightarrow> snd (search E c query limit) = Inr []) \<and>
         (0 < limit \<longrightarrow>
            snd (search E c query limit) =
              Inr (map (\<lambda>(r, s). search_row r s)
                     (take (nat limit) (sort_key snd (match_rows E (current c) q)))))"
proof -
  have zero: "limit = 0 \<longrightarrow> snd (search E c query limit) = Inr []"
    using assms search_parsed[of query 0 E q c] by (auto simp: sql_limit_def)
  show ?thesis
    using assms zero by (simp add: search_parsed sql_limit_def search_default_def)
qed

theorem limit_handling_witness:
  "utf8_encodable [111, 102, 102] \<and> int64 (- 1) \<and>
   parse_query toy_fts5 [111, 102, 102] = Some [[111, 102, 102]] \<and>
   snd (search toy_fts5 (run toy_fts5 new_db sample_calls) [111, 102, 102] (- 1)) =
     Inr (map (\<lambda>(r, s). search_row r s)
            (sort_key snd (match_rows toy_fts5 (current (run toy_fts5 new_db sample_calls))
                                       [[111, 102, 102]]))) \<and>
   map (\<lambda>d. map_of d ''id'')
       (projr (snd (search toy_fts5 (run toy_fts5 new_db sample_calls) [111, 102, 102] (- 1)))) =
     [Some (PyInt 1), Some (PyInt 2), Some (PyInt 3)]"
proof -
  have h: "utf8_encodable [111, 102, 102]" "int64 (- 1)"
    "parse_query toy_fts5 [111, 102, 102] = Some [[111, 102, 102]]"
    by (simp_all add: model_defs)
  have e: "map (\<lambda>d. map_of d ''id'')
       (projr (snd (search toy_fts5 (run toy_fts5 new_db sample_calls) [111, 102, 102] (- 1)))) =
     [Some (PyInt 1), Some (PyInt 2), Some (PyInt 3)]"
    by (simp add: sample_calls_def model_defs)
  from limit_handling[OF h, of "run toy_fts5 new_db sample_calls"]
  have "snd (search toy_fts5 (run toy_fts5 new_db sample_calls) [111, 102, 102] (- 1)) =
     Inr (map (\<lambda>(r, s). search_row r s)
            (sort_key snd (match_rows toy_fts5 (current (run toy_fts5 new_db sample_calls))
                                       [[111, 102, 102]])))"
    by simp
  with h e show ?thesis by blast
qed

text \<open>
  Claim C7 as stated fails on the sample, where three rows match: the limit 0 is
  neither rejected nor taken as no limit (the result is empty), while the limit \<open>-1\<close> is
  taken as no limit (the result has the three rows).
\<close>

theorem limit_handling_counterexample:
  "length (match_rows toy_fts5 (current (run toy_fts5 new_db sample_calls)) [[111, 102, 102]]) = 3 \<and>
   snd (search toy_fts5 (run toy_fts5 new_db sample_calls) [111, 102, 102] 0) = Inr [] \<and>
   isl (snd (search toy_fts5 (run toy_fts5 new_db sample_calls) [111, 102, 102] (- 1))) = False \<and>
   length (projr (snd (search toy_fts5 (run toy_fts5 new_db sample_calls) [111, 102, 102] (- 1)))) = 3"
  by (simp add: sample_calls_def model_defs)



section \<open>Bulk insertion\<close>

lemma new_rowid_after_insert:
  assumes "exec_insert E t now r = Inr (t', rid)"
  shows "new_rowid t' = new_rowid t + 1"
proof -
  note facts = exec_insert_Inr[OF assms]
  have "\<forall>x\<in>set (map row_id (ai_records t')). x \<le> rid"
    using new_rowid_gt_rows[of _ t] facts(1) by (fastforce simp: facts(5))
  moreover have "0 \<le> rid" using new_rowid_pos[of t] facts(1) by simp
  ultimately have "fold max (map row_id (ai_records t')) 0 \<le> rid"
    by (simp add: fold_max_le)
  then show ?thesis using facts(1,4) by (simp add: new_rowid_def)
qed

text \<open>
  When every record of the batch can be bound and the key space suffices, the loop
  inserts them all and counts them.
\<close>

lemma executemany_succeeds:
  "list_all (\<lambda>r. list_all utf8_encodable (payload r)) rs \<Longrightarrow>
   new_rowid t + int (length rs) - 1 \<le> max_rowid \<Longrightarrow>
   snd (executemany E t clock k rs n) = Inr (n + int (length rs)) \<and>
   length (ai_records (fst (executemany E t clock k rs n))) = length (ai_records t) + length rs"
proof (induction rs arbitrary: t k n)
  case Nil
  then show ?case by simp
next
  case (Cons r rs)
  from Cons.prems obtain t1 where ex: "exec_insert E t (clock k) r = Inr (t1, new_rowid t)"
    by (auto simp: exec_insert_def Let_def)
  have "new_rowid t1 + int (length rs) - 1 \<le> max_rowid"
    using Cons.prems(2) new_rowid_after_insert[OF ex] by simp
  with Cons.prems(1) Cons.IH[of t1 "Suc k" "n + 1"] ex exec_insert_Inr(5)[OF ex]
  show ?case by simp
qed

text \<open>On success \<open>bulk_add\<close> does what the \<open>add_ai\<close> calls for the records do, one
  after another, and returns their number.\<close>

lemma executemany_as_add_ai:
  "snd (executemany E (current c) clock k rs n) = Inr m \<Longrightarrow>
   fst (executemany E (current c) clock k rs n) =
     current (foldl (\<lambda>c (j, r). fst (add_ai E c (clock j) r)) c (zip [k..<k + length rs] rs))"
proof (induction rs arbitrary: c k n)
  case Nil
  then show ?case by simp
next
  case (Cons r rs)
  show ?case
  proof (cases "exec_insert E (current c) (clock k) r")
    case (Inl e)
    with Cons.prems show ?thesis by simp
  next
    case (Inr p)
    obtain t1 rid where p: "p = (t1, rid)" by (cases p)
    let ?c1 = "fst (add_ai E c (clock k) r)"
    have c1: "current ?c1 = t1" using Inr p by (simp add: add_ai_def commit_def)
    have "snd (executemany E (current ?c1) clock (Suc k) rs (n + 1)) = Inr m"
      using Cons.prems Inr p c1 by simp
    from Cons.IH[OF this] c1
    have ih: "fst (executemany E t1 clock (Suc k) rs (n + 1)) =
        current (foldl (\<lambda>c (j, r). fst (add_ai E c (clock j) r)) ?c1
                   (zip [Suc k..<Suc k + length rs] rs))"
      by simp
    have u: "zip [k..<k + length (r # rs)] (r # rs) = (k, r) # zip [Suc k..<Suc k + length rs] rs"
      by (simp add: upt_conv_Cons del: upt_Suc)
    show ?thesis unfolding u using ih Inr p by (simp del: upt_Suc)
  qed
qed

lemma bulk_add_succeeds:
  assumes "list_all (\<lambda>r. list_all utf8_encodable (payload r)) rs"
    and "new_rowid (current c) + int (length rs) - 1 \<le> max_rowid"
  shows "snd (bulk_add E c clock rs) = Inr (int (length rs)) \<and>
         current (fst (bulk_add E c clock rs)) =
           current (foldl (\<lambda>c (j, r). fst (add_ai E c (clock j) r)) c (zip [0..<length rs] rs)) \<and>
         committed (fst (bulk_add E c clock rs)) = current (fst (bulk_add E c clock rs))"
proof -
  obtain t res where ex: "executemany E (current c) clock 0 rs 0 = (t, res)" by force
  from executemany_succeeds[OF assms, of E clock 0 0] ex
  have res: "res = Inr (int (length rs))" by simp
  from executemany_as_add_ai[of E c clock 0 rs 0] ex res
  have "t = current (foldl (\<lambda>c (j, r). fst (add_ai E c (clock j) r)) c (zip [0..<length rs] rs))"
    by simp
  with ex res show ?thesis by (simp add: bulk_add_def commit_def)
qed

text \<open>
  Claim C3 (all or nothing) on the batch of \<open>math_ai\<close>, \<open>surrogate_ai\<close> and \<open>code_ai\<close>,
  whose second record cannot be bound. \<open>bulk_add\<close> raises \<open>UnicodeEncodeError\<close>; the
  first record is then in the table that the connection reads, with its index entry,
  and \<open>list_all\<close> returns it, although nothing is committed; the next successful
  \<open>add_ai\<close> commits it together with its own row.
\<close>

theorem bulk_add_partial_batch:
  "snd (bulk_add toy_fts5 new_db (\<lambda>k. noon) [math_ai, surrogate_ai, code_ai]) =
     Inl UnicodeEncodeError \<and>
   map row_name (ai_records (current
     (fst (bulk_add toy_fts5 new_db (\<lambda>k. noon) [math_ai, surrogate_ai, code_ai])))) = [name math_ai] \<and>
   map fst (ai_records_fts (current
     (fst (bulk_add toy_fts5 new_db (\<lambda>k. noon) [math_ai, surrogate_ai, code_ai])))) = [1] \<and>
   length (list_all_db
     (fst (bulk_add toy_fts5 new_db (\<lambda>k. noon) [math_ai, surrogate_ai, code_ai]))) = 1 \<and>
   ai_records (committed
     (fst (bulk_add toy_fts5 new_db (\<lambda>k. noon) [math_ai, surrogate_ai, code_ai]))) = [] \<and>
   map row_name (ai_records (committed
     (fst (add_ai toy_fts5
        (fst (bulk_add toy_fts5 new_db (\<lambda>k. noon) [math_ai, surrogate_ai, code_ai]))
        noon vision_bot)))) = [name math_ai, name vision_bot]"
  by (simp add: model_defs)


end
